theory Spec2Isabelle
  imports Main "HOL-Library.List_Lexorder" "HOL-Library.Char_ord"
begin

section \<open>The syntax tree as scan-java-files.js reads it\<close>

text \<open>
  The scanner consumes the concrete syntax tree of the external Java parser. Every node is
  an object with a \<^verbatim>\<open>children\<close> dictionary whose keys map to arrays; the script reaches
  into it with optional chaining (\<^verbatim>\<open>a?.b?.[0]\<close>), so a missing key and an empty array both
  give \<^verbatim>\<open>undefined\<close>. A key is modelled as an optional list: \<open>None\<close> is the missing key.
  Each record below has the keys the script reads on that kind of node, whether or not the
  parser ever fills them, and three keys that no function of the script reads but under
  which the parser keeps what the script looks for elsewhere:
  \<^item> \<open>interfaceModifier\<close>, the modifiers (annotations, \<^verbatim>\<open>abstract\<close>, ...) of an
    \<^verbatim>\<open>interfaceDeclaration\<close>, as \<open>classModifier\<close> holds those of a \<^verbatim>\<open>classDeclaration\<close>;
  \<^item> \<open>cm_Abstract\<close>, the token of the keyword \<^verbatim>\<open>abstract\<close> in a modifier (the script reads
    \<^verbatim>\<open>abstractKeyword\<close>);
  \<^item> \<open>it_classType\<close>, the type named by a member of an \<^verbatim>\<open>implements\<close> or \<^verbatim>\<open>extends\<close> list
    (the script reads \<^verbatim>\<open>typeName\<close>).
\<close>

record token =
  tk_image :: string

record packageOrTypeName =
  ptn_Identifier :: "token list option"

record typeName =
  tn_Identifier :: "token list option"
  tn_packageOrTypeName :: "packageOrTypeName list option"

record annotation =
  ann_typeName :: "typeName list option"

record classModifier =
  cm_annotation :: "annotation list option"
  cm_abstractKeyword :: "token list option"
  cm_Abstract :: "token list option"

record classType =
  ct_Identifier :: "token list option"

record interfaceType =
  it_typeName :: "typeName list option"
  it_classType :: "classType list option"

record interfaceTypeList =
  itl_interfaceType :: "interfaceType list option"

record classImplements =
  ci_interfaceTypeList :: "interfaceTypeList list option"

record interfaceExtends =
  ie_interfaceTypeList :: "interfaceTypeList list option"

record typeIdentifier =
  ti_Identifier :: "token list option"

record normalClassDeclaration =
  ncd_typeIdentifier :: "typeIdentifier list option"
  ncd_classImplements :: "classImplements list option"

record normalInterfaceDeclaration =
  nid_typeIdentifier :: "typeIdentifier list option"
  nid_interfaceExtends :: "interfaceExtends list option"

text \<open>
  \<open>node\<close> is what \<^verbatim>\<open>getTypeDeclaration\<close> returns: a \<^verbatim>\<open>classDeclaration\<close> or an
  \<^verbatim>\<open>interfaceDeclaration\<close>. JavaScript objects are untyped, so one record carries the keys
  of both.
\<close>

record node =
  classModifier :: "classModifier list option"
  interfaceModifier :: "classModifier list option"
  normalClassDeclaration :: "normalClassDeclaration list option"
  normalInterfaceDeclaration :: "normalInterfaceDeclaration list option"

record typeDeclaration =
  classDeclaration :: "node list option"
  interfaceDeclaration :: "node list option"

record ordinaryCompilationUnit =
  ocu_typeDeclaration :: "typeDeclaration list option"

record ast =
  ast_ordinaryCompilationUnit :: "ordinaryCompilationUnit list option"

text \<open>\<^verbatim>\<open>xs?.[0]\<close>: the first element of an array that may be missing or empty.\<close>

fun first :: "'a list option \<Rightarrow> 'a option" where
  "first None = None"
| "first (Some []) = None"
| "first (Some (x # xs)) = Some x"

text \<open>\<^verbatim>\<open>parts.join('.')\<close>.\<close>

fun join_dot :: "string list \<Rightarrow> string" where
  "join_dot [] = []"
| "join_dot [p] = p"
| "join_dot (p # q # ps) = p @ ''.'' @ join_dot (q # ps)"

text \<open>\<^verbatim>\<open>a.split('.')\<close>: never empty, \<^verbatim>\<open>''.split('.')\<close> is \<^verbatim>\<open>['']\<close>.\<close>

fun split_on :: "char \<Rightarrow> string \<Rightarrow> string list" where
  "split_on c [] = [[]]"
| "split_on c (x # xs) =
     (if x = c then [] # split_on c xs
      else (case split_on c xs of
              [] \<Rightarrow> [[x]]
            | part # parts \<Rightarrow> (x # part) # parts))"

definition split_dot :: "string \<Rightarrow> string list" where
  "split_dot a = split_on CHR ''.'' a"

subsection \<open>getTypeName, isAbstract\<close>

text \<open>
  \<^verbatim>\<open>x?.children?.typeIdentifier?.[0]?.children?.Identifier?.[0]?.image\<close>, kept only when it
  is truthy (a non-empty string).
\<close>

definition identifierImage :: "typeIdentifier list option \<Rightarrow> string option" where
  "identifierImage tis =
     (case first tis of
        None \<Rightarrow> None
      | Some ti \<Rightarrow>
          (case first (ti_Identifier ti) of
             None \<Rightarrow> None
           | Some t \<Rightarrow> if tk_image t \<noteq> [] then Some (tk_image t) else None))"

definition getTypeName :: "node \<Rightarrow> string option" where
  "getTypeName node =
     (case (case first (normalClassDeclaration node) of
              None \<Rightarrow> None
            | Some ncd \<Rightarrow> identifierImage (ncd_typeIdentifier ncd)) of
        Some name \<Rightarrow> Some name
      | None \<Rightarrow>
          (case (case first (normalInterfaceDeclaration node) of
                   None \<Rightarrow> None
                 | Some nid \<Rightarrow> identifierImage (nid_typeIdentifier nid)) of
             Some name \<Rightarrow> Some name
           | None \<Rightarrow> None))"

fun isAbstract_loop :: "classModifier list \<Rightarrow> bool" where
  "isAbstract_loop [] = False"
| "isAbstract_loop (modifier # mods) =
     (if first (cm_abstractKeyword modifier) \<noteq> None then True else isAbstract_loop mods)"

definition isAbstract :: "node \<Rightarrow> bool" where
  "isAbstract node =
     (case classModifier node of
        None \<Rightarrow> False
      | Some mods \<Rightarrow> isAbstract_loop mods)"

subsection \<open>getAnnotations, getImplementedInterfaces, getExtendedInterfaces\<close>

text \<open>
  The three extractors contain the same block for one \<^verbatim>\<open>typeName\<close> node: push the image of
  its first \<^verbatim>\<open>Identifier\<close> when truthy, then, when it has a \<^verbatim>\<open>packageOrTypeName\<close> child with
  an \<^verbatim>\<open>Identifier\<close> array, push the images of that array joined with dots.
  \<open>pushTypeName\<close> is the list of strings the block pushes.
\<close>

definition pushTypeName :: "typeName \<Rightarrow> string list" where
  "pushTypeName typeName =
     (case first (tn_Identifier typeName) of
        None \<Rightarrow> []
      | Some t \<Rightarrow> if tk_image t \<noteq> [] then [tk_image t] else [])
     @
     (case first (tn_packageOrTypeName typeName) of
        None \<Rightarrow> []
      | Some ptn \<Rightarrow>
          (case ptn_Identifier ptn of
             None \<Rightarrow> []
           | Some ids \<Rightarrow> [join_dot (map tk_image ids)]))"

definition annotationNames :: "annotation \<Rightarrow> string list" where
  "annotationNames ann =
     (case first (ann_typeName ann) of
        None \<Rightarrow> []
      | Some typeName \<Rightarrow> pushTypeName typeName)"

definition modifierAnnotations :: "classModifier \<Rightarrow> string list" where
  "modifierAnnotations modifier =
     (case cm_annotation modifier of
        None \<Rightarrow> []
      | Some anns \<Rightarrow> concat (map annotationNames anns))"

definition getAnnotations :: "node \<Rightarrow> string list" where
  "getAnnotations node =
     (case classModifier node of
        None \<Rightarrow> []
      | Some mods \<Rightarrow> concat (map modifierAnnotations mods))"

text \<open>The loop over \<^verbatim>\<open>interfaceList.children?.interfaceType || []\<close>, shared by the two
  functions below.\<close>

definition interfaceTypeNames :: "interfaceTypeList \<Rightarrow> string list" where
  "interfaceTypeNames interfaceList =
     concat (map (\<lambda>iface. case first (it_typeName iface) of
                              None \<Rightarrow> []
                            | Some typeName \<Rightarrow> pushTypeName typeName)
                 (case itl_interfaceType interfaceList of None \<Rightarrow> [] | Some ifaces \<Rightarrow> ifaces))"

definition getImplementedInterfaces :: "node \<Rightarrow> string list" where
  "getImplementedInterfaces node =
     (case first (normalClassDeclaration node) of
        None \<Rightarrow> []
      | Some ncd \<Rightarrow>
          (case first (ncd_classImplements ncd) of
             None \<Rightarrow> []
           | Some classBody \<Rightarrow>
               (case first (ci_interfaceTypeList classBody) of
                  None \<Rightarrow> []
                | Some interfaceList \<Rightarrow> interfaceTypeNames interfaceList)))"

definition getExtendedInterfaces :: "node \<Rightarrow> string list" where
  "getExtendedInterfaces node =
     (case first (normalInterfaceDeclaration node) of
        None \<Rightarrow> []
      | Some nid \<Rightarrow>
          (case first (nid_interfaceExtends nid) of
             None \<Rightarrow> []
           | Some interfaceBody \<Rightarrow>
               (case first (ie_interfaceTypeList interfaceBody) of
                  None \<Rightarrow> []
                | Some interfaceList \<Rightarrow> interfaceTypeNames interfaceList)))"

subsection \<open>getTypeDeclaration, parseJavaFile, findClassDeclaration\<close>

definition getTypeDeclaration :: "ast \<Rightarrow> node option" where
  "getTypeDeclaration a =
     (case first (ast_ordinaryCompilationUnit a) of
        None \<Rightarrow> None
      | Some unit \<Rightarrow>
          (case first (ocu_typeDeclaration unit) of
             None \<Rightarrow> None
           | Some typeDecl \<Rightarrow>
               (case first (classDeclaration typeDecl) of
                  Some n \<Rightarrow> Some n
                | None \<Rightarrow> first (interfaceDeclaration typeDecl))))"

text \<open>
  Reading and parsing a file is the environment's: \<open>parse filePath\<close> is the tree the parser
  returns for the file's text, \<open>None\<close> when reading or parsing throws (the script logs the
  error and returns \<^verbatim>\<open>null\<close>). The script's cache \<^verbatim>\<open>parsedFiles\<close> only ever holds the tree
  that was returned for a path, so a cached read is the same value and the cache is not
  part of the state here.
\<close>

type_synonym parser = "string \<Rightarrow> ast option"

definition parseJavaFile :: "parser \<Rightarrow> string \<Rightarrow> ast option" where
  "parseJavaFile parse filePath = parse filePath"

record decl =
  decl_node :: node
  decl_filePath :: string

fun findClassDeclaration :: "parser \<Rightarrow> string \<Rightarrow> string list \<Rightarrow> decl option" where
  "findClassDeclaration parse className [] = None"
| "findClassDeclaration parse className (filePath # javaFiles) =
     (case parseJavaFile parse filePath of
        None \<Rightarrow> findClassDeclaration parse className javaFiles
      | Some a \<Rightarrow>
          (case getTypeDeclaration a of
             None \<Rightarrow> findClassDeclaration parse className javaFiles
           | Some typeNode \<Rightarrow>
               if getTypeName typeNode = Some className
               then Some \<lparr>decl_node = typeNode, decl_filePath = filePath\<rparr>
               else findClassDeclaration parse className javaFiles))"

subsection \<open>implementsTargetInterface\<close>

text \<open>
  The recursion mutates the set \<^verbatim>\<open>visited\<close> that all calls of one traversal share; the
  model passes the set in and returns it next to the boolean. The \<^verbatim>\<open>for\<close> loop over
  \<^verbatim>\<open>implemented\<close> is \<open>implementsTarget_loop\<close>. The traversal follows
  \<^verbatim>\<open>getImplementedInterfaces\<close> only: the script never calls \<^verbatim>\<open>getExtendedInterfaces\<close>.
  The recursion is not structural; it is accepted with the termination proof below, whose
  measure is the number of declared type names not yet visited.
\<close>

definition nodeKey :: "node \<Rightarrow> string" where
  "nodeKey node = (case getTypeName node of None \<Rightarrow> ''unknown'' | Some typeName \<Rightarrow> typeName)"

function implementsTargetInterface ::
    "parser \<Rightarrow> node \<Rightarrow> string \<Rightarrow> string list \<Rightarrow> string set \<Rightarrow> bool \<times> string set"
  and implementsTarget_loop ::
    "parser \<Rightarrow> string list \<Rightarrow> string \<Rightarrow> string list \<Rightarrow> string set \<Rightarrow> bool \<times> string set"
where
  "implementsTargetInterface parse node targetInterface javaFiles visited =
     (if nodeKey node \<in> visited then (False, visited)
      else if targetInterface \<in> set (getImplementedInterfaces node)
           then (True, insert (nodeKey node) visited)
           else implementsTarget_loop parse (getImplementedInterfaces node) targetInterface
                  javaFiles (insert (nodeKey node) visited))"
| "implementsTarget_loop parse [] targetInterface javaFiles visited = (False, visited)"
| "implementsTarget_loop parse (ifaceName # rest) targetInterface javaFiles visited =
     (case findClassDeclaration parse ifaceName javaFiles of
        None \<Rightarrow> implementsTarget_loop parse rest targetInterface javaFiles visited
      | Some ifaceDecl \<Rightarrow>
          (case implementsTargetInterface parse (decl_node ifaceDecl) targetInterface
                  javaFiles visited of
             (True, visited') \<Rightarrow> (True, visited')
           | (False, visited') \<Rightarrow>
               implementsTarget_loop parse rest targetInterface javaFiles visited'))"
  by pat_completeness auto


definition declaredNames :: "parser \<Rightarrow> string list \<Rightarrow> string set" where
  "declaredNames parse javaFiles = {c. findClassDeclaration parse c javaFiles \<noteq> None}"

lemma declaredNames_Nil: "declaredNames parse [] = {}"
  by (simp add: declaredNames_def)

lemma declaredNames_Cons:
  "declaredNames parse (f # fs) \<subseteq>
     declaredNames parse fs \<union>
     (case parse f of None \<Rightarrow> {}
      | Some a \<Rightarrow> (case getTypeDeclaration a of None \<Rightarrow> {}
                   | Some n \<Rightarrow> (case getTypeName n of None \<Rightarrow> {} | Some c \<Rightarrow> {c})))"
  by (auto simp: declaredNames_def parseJavaFile_def split: option.splits if_splits)

lemma finite_declaredNames: "finite (declaredNames parse javaFiles)"
proof (induction javaFiles)
  case Nil
  show ?case by (simp add: declaredNames_Nil)
next
  case (Cons f fs)
  have "finite (case parse f of None \<Rightarrow> {}
      | Some a \<Rightarrow> (case getTypeDeclaration a of None \<Rightarrow> {}
                   | Some n \<Rightarrow> (case getTypeName n of None \<Rightarrow> {} | Some c \<Rightarrow> {c})))"
    by (simp split: option.splits)
  with Cons show ?case
    using declaredNames_Cons [of parse f fs] finite_subset by blast
qed

lemma findClassDeclaration_name:
  "findClassDeclaration parse c javaFiles = Some d \<Longrightarrow> getTypeName (decl_node d) = Some c"
  by (induction javaFiles) (auto split: option.splits if_splits)

lemma findClassDeclaration_nodeKey:
  "findClassDeclaration parse c javaFiles = Some d \<Longrightarrow> nodeKey (decl_node d) = c"
  by (simp add: nodeKey_def findClassDeclaration_name)

lemma findClassDeclaration_declared:
  "findClassDeclaration parse c javaFiles = Some d \<Longrightarrow> c \<in> declaredNames parse javaFiles"
  by (simp add: declaredNames_def)

lemma visited_grows_dom:
  "implementsTargetInterface_implementsTarget_loop_dom (Inl (parse, node, t, fs, v)) \<Longrightarrow>
     v \<subseteq> snd (implementsTargetInterface parse node t fs v)"
  "implementsTargetInterface_implementsTarget_loop_dom (Inr (parse, names, t, fs, v)) \<Longrightarrow>
     v \<subseteq> snd (implementsTarget_loop parse names t fs v)"
proof (induction parse node t fs v and parse names t fs v
       rule: implementsTargetInterface_implementsTarget_loop.pinduct)
  case (1 parse node targetInterface javaFiles visited)
  then show ?case
    by (auto simp: implementsTargetInterface.psimps)
next
  case (2 parse targetInterface javaFiles visited)
  then show ?case
    by (simp add: implementsTarget_loop.psimps)
next
  case (3 parse ifaceName rest targetInterface javaFiles visited)
  show ?case
  proof (cases "findClassDeclaration parse ifaceName javaFiles")
    case None
    with 3(1) 3(2) show ?thesis by (simp add: implementsTarget_loop.psimps)
  next
    case (Some d)
    obtain b v' where r: "implementsTargetInterface parse (decl_node d) targetInterface javaFiles visited = (b, v')"
      by (cases "implementsTargetInterface parse (decl_node d) targetInterface javaFiles visited")
    from 3(3) [OF Some] r have sub: "visited \<subseteq> v'" by simp
    show ?thesis
    proof (cases b)
      case True
      with 3(1) Some r sub show ?thesis by (simp add: implementsTarget_loop.psimps)
    next
      case False
            from 3(4) [OF Some r [symmetric]] False have "v' \<subseteq> snd (implementsTarget_loop parse rest targetInterface javaFiles v')"
        by simp
      with 3(1) Some r sub False show ?thesis by (auto simp: implementsTarget_loop.psimps)
    qed
  qed
qed

definition traversal_measure ::
  "(parser \<times> node \<times> string \<times> string list \<times> string set) +
   (parser \<times> string list \<times> string \<times> string list \<times> string set) \<Rightarrow> nat \<times> nat" where
  "traversal_measure x =
     (case x of
        Inl (parse, node, t, fs, v) \<Rightarrow>
          (card (insert (nodeKey node) (declaredNames parse fs) - v), 0)
      | Inr (parse, names, t, fs, v) \<Rightarrow>
          (card (declaredNames parse fs - v), Suc (length names)))"

termination implementsTargetInterface
proof (relation "inv_image (less_than <*lex*> less_than) traversal_measure", goal_cases)
  case 1
  show ?case by (auto intro!: wf_inv_image)
next
  case (2 parse node targetInterface javaFiles visited)
  have "declaredNames parse javaFiles - insert (nodeKey node) visited
          \<subset> insert (nodeKey node) (declaredNames parse javaFiles) - visited"
    using 2(1) by auto
  then have "card (declaredNames parse javaFiles - insert (nodeKey node) visited)
          < card (insert (nodeKey node) (declaredNames parse javaFiles) - visited)"
    by (intro psubset_card_mono) (simp_all add: finite_declaredNames)
  then show ?case by (simp add: traversal_measure_def)
next
  case (3 parse ifaceName rest targetInterface javaFiles visited)
  then show ?case by (simp add: traversal_measure_def)
next
  case (4 parse ifaceName rest targetInterface javaFiles visited d)
  then show ?case
    by (simp add: traversal_measure_def findClassDeclaration_nodeKey
          insert_absorb [OF findClassDeclaration_declared])
next
  case (5 parse ifaceName rest targetInterface javaFiles visited d x y)
  from visited_grows_dom(1) [OF 5(4)] 5(2) have "visited \<subseteq> y"
    by (metis snd_conv)
  then have "declaredNames parse javaFiles - y \<subseteq> declaredNames parse javaFiles - visited"
    by auto
  then have "card (declaredNames parse javaFiles - y)
          \<le> card (declaredNames parse javaFiles - visited)"
    by (intro card_mono) (simp_all add: finite_declaredNames)
  then show ?case by (auto simp: traversal_measure_def)
qed



declare implementsTargetInterface.simps [simp del]

subsection \<open>The scanner object and the two matchers\<close>

text \<open>
  The configuration document, after \<^verbatim>\<open>JSON.parse\<close>: each field may be missing. The
  constructor fills the defaults: \<^verbatim>\<open>config.annotations || []\<close>,
  \<^verbatim>\<open>config.interfaces || []\<close>, \<^verbatim>\<open>config.excludeAbstract !== false\<close> and
  \<^verbatim>\<open>config.scanDir || './src/main/java'\<close> (an empty string is falsy).
\<close>

record config =
  cfg_annotations :: "string list option"
  cfg_interfaces :: "string list option"
  cfg_excludeAbstract :: "bool option"
  cfg_scanDir :: "string option"

record scanner =
  annotations :: "string list"
  interfaces :: "string list"
  excludeAbstract :: bool
  scanDir :: string

definition JavaFileScanner :: "config \<Rightarrow> scanner" where
  "JavaFileScanner cfg =
     \<lparr>annotations = (case cfg_annotations cfg of None \<Rightarrow> [] | Some xs \<Rightarrow> xs),
      interfaces = (case cfg_interfaces cfg of None \<Rightarrow> [] | Some xs \<Rightarrow> xs),
      excludeAbstract = (cfg_excludeAbstract cfg \<noteq> Some False),
      scanDir = (case cfg_scanDir cfg of
                   None \<Rightarrow> ''./src/main/java''
                 | Some d \<Rightarrow> if d \<noteq> [] then d else ''./src/main/java'')\<rparr>"

definition hasConfiguredAnnotation :: "scanner \<Rightarrow> node \<Rightarrow> bool" where
  "hasConfiguredAnnotation this node =
     (if length (annotations this) = 0 then False
      else
        let nodeAnnotations = getAnnotations node;
            simpleAnnotationNames = map (\<lambda>a. last (split_dot a)) (annotations this)
        in list_ex (\<lambda>ann. if ann \<in> set simpleAnnotationNames then True
                          else if ann \<in> set (annotations this) then True
                          else False)
                   nodeAnnotations)"

text \<open>Each configured target starts a traversal of its own, with a fresh \<^verbatim>\<open>visited\<close> set.\<close>

fun hasConfiguredInterface_loop ::
    "parser \<Rightarrow> node \<Rightarrow> string list \<Rightarrow> string list \<Rightarrow> bool" where
  "hasConfiguredInterface_loop parse node javaFiles [] = False"
| "hasConfiguredInterface_loop parse node javaFiles (targetInterface # rest) =
     (if fst (implementsTargetInterface parse node targetInterface javaFiles {}) then True
      else hasConfiguredInterface_loop parse node javaFiles rest)"

definition hasConfiguredInterface :: "scanner \<Rightarrow> parser \<Rightarrow> node \<Rightarrow> string list \<Rightarrow> bool" where
  "hasConfiguredInterface this parse node javaFiles =
     (if length (interfaces this) = 0 then False
      else hasConfiguredInterface_loop parse node javaFiles (interfaces this))"

subsection \<open>findJavaFiles\<close>

text \<open>
  The file system under the scan directory is a finite tree. A directory lists its entries
  in the order \<^verbatim>\<open>fs.readdirSync\<close> returns them; \<open>Special\<close> is anything \<^verbatim>\<open>statSync\<close> reports
  as neither a directory nor a regular file. \<^verbatim>\<open>statSync\<close> is assumed not to throw.
\<close>

datatype fsnode = File | Special | Dir "(string \<times> fsnode) list"

type_synonym filesystem = "string \<Rightarrow> fsnode option"

definition endsWith :: "string \<Rightarrow> string \<Rightarrow> bool" where
  "endsWith s suffix =
     (length suffix \<le> length s \<and> drop (length s - length suffix) s = suffix)"

definition startsWith :: "string \<Rightarrow> string \<Rightarrow> bool" where
  "startsWith s prefix = (take (length prefix) s = prefix)"

text \<open>
  \<^verbatim>\<open>path.join\<close> of Node's POSIX \<^verbatim>\<open>path\<close> module, for two arguments: the non-empty arguments
  are joined with a slash and the result is normalised. Normalisation works on the
  segments between slashes: empty segments and \<^verbatim>\<open>.\<close> are dropped, \<^verbatim>\<open>..\<close> removes the segment
  before it, or is kept when there is none to remove and the path is relative.
\<close>

fun join_slash :: "string list \<Rightarrow> string" where
  "join_slash [] = []"
| "join_slash [p] = p"
| "join_slash (p # q # ps) = p @ ''/'' @ join_slash (q # ps)"

fun normalizeString :: "bool \<Rightarrow> string list \<Rightarrow> string list \<Rightarrow> string list" where
  "normalizeString allowAboveRoot res [] = res"
| "normalizeString allowAboveRoot res (seg # segs) =
     (if seg = [] \<or> seg = ''.'' then normalizeString allowAboveRoot res segs
      else if seg = ''..'' then
        (if res \<noteq> [] \<and> last res \<noteq> ''..''
         then normalizeString allowAboveRoot (butlast res) segs
         else if allowAboveRoot then normalizeString allowAboveRoot (res @ [''..'']) segs
         else normalizeString allowAboveRoot res segs)
      else normalizeString allowAboveRoot (res @ [seg]) segs)"

definition isAbsolute :: "string \<Rightarrow> bool" where
  "isAbsolute p = (case p of [] \<Rightarrow> False | c # cs \<Rightarrow> c = CHR ''/'')"

definition normalize :: "string \<Rightarrow> string" where
  "normalize p =
     (if p = [] then ''.''
      else
        let trailingSeparator = (last p = CHR ''/'');
            r = join_slash (normalizeString (\<not> isAbsolute p) [] (split_on CHR ''/'' p))
        in if r = [] then (if isAbsolute p then ''/'' else if trailingSeparator then ''./'' else ''.'')
           else (if isAbsolute p then ''/'' else []) @ r @ (if trailingSeparator then ''/'' else []))"

definition path_join :: "string \<Rightarrow> string \<Rightarrow> string" where
  "path_join a b =
     (let joined = (if a = [] then b else if b = [] then a else a @ ''/'' @ b)
      in if joined = [] then ''.'' else normalize joined)"

text \<open>
  \<^verbatim>\<open>walkDir\<close> pushes onto the array \<^verbatim>\<open>javaFiles\<close> as it goes; the model returns the pushed
  paths in order. It descends only into directories, so \<open>walkDir\<close> is given the
  directory's entries; the first call, on the scan directory itself, is \<open>findJavaFiles\<close>.
\<close>

fun walkDir :: "string \<Rightarrow> (string \<times> fsnode) list \<Rightarrow> string list" where
  "walkDir currentPath [] = []"
| "walkDir currentPath ((entry, File) # entries) =
     (if endsWith entry ''.java'' then [path_join currentPath entry] else [])
     @ walkDir currentPath entries"
| "walkDir currentPath ((entry, Special) # entries) =
     (if endsWith entry ''.java'' then [path_join currentPath entry] else [])
     @ walkDir currentPath entries"
| "walkDir currentPath ((entry, Dir sub) # entries) =
     (if entry \<noteq> ''target'' \<and> entry \<noteq> ''build'' \<and> \<not> startsWith entry ''.''
      then walkDir (path_join currentPath entry) sub else [])
     @ walkDir currentPath entries"

definition findJavaFiles :: "filesystem \<Rightarrow> string \<Rightarrow> string list" where
  "findJavaFiles fs dir =
     (case fs dir of
        None \<Rightarrow> []
      | Some (Dir entries) \<Rightarrow> walkDir dir entries
      | Some File \<Rightarrow> if endsWith dir ''.java'' then [dir] else []
      | Some Special \<Rightarrow> [])"

subsection \<open>scan\<close>

record scanResult =
  count :: nat
  files :: "string list"

text \<open>
  One iteration of the loop of \<^verbatim>\<open>scan\<close> decides whether \<^verbatim>\<open>filePath\<close> is pushed onto
  \<^verbatim>\<open>matchedFiles\<close>; each \<^verbatim>\<open>continue\<close> is a \<open>False\<close>.
\<close>

definition scanMatches :: "scanner \<Rightarrow> parser \<Rightarrow> string list \<Rightarrow> string \<Rightarrow> bool" where
  "scanMatches this parse javaFiles filePath =
     (case parseJavaFile parse filePath of
        None \<Rightarrow> False
      | Some a \<Rightarrow>
          (case getTypeDeclaration a of
             None \<Rightarrow> False
           | Some typeNode \<Rightarrow>
               if excludeAbstract this \<and> isAbstract typeNode then False
               else
                 let hasAnnotationMatch = hasConfiguredAnnotation this typeNode;
                     hasInterfaceMatch = hasConfiguredInterface this parse typeNode javaFiles
                 in hasAnnotationMatch \<or> hasInterfaceMatch))"

fun scan_loop :: "scanner \<Rightarrow> parser \<Rightarrow> string list \<Rightarrow> string list \<Rightarrow> string list" where
  "scan_loop this parse javaFiles [] = []"
| "scan_loop this parse javaFiles (filePath # rest) =
     (if scanMatches this parse javaFiles filePath
      then filePath # scan_loop this parse javaFiles rest
      else scan_loop this parse javaFiles rest)"

text \<open>
  \<^verbatim>\<open>matchedFiles.sort()\<close> compares the paths as strings, code unit by code unit: the
  lexicographic order on character lists.
\<close>

definition scan :: "scanner \<Rightarrow> filesystem \<Rightarrow> parser \<Rightarrow> scanResult" where
  "scan this fs parse =
     (let javaFiles = findJavaFiles fs (scanDir this);
          matchedFiles = scan_loop this parse javaFiles javaFiles
      in \<lparr>count = length matchedFiles, files = sort matchedFiles\<rparr>)"


section \<open>Trees of written declarations\<close>

text \<open>
  The parser is an external library. What it returns for a piece of Java is fixed here
  after its grammar:
  \<^item> a name \<^verbatim>\<open>q1.q2.N\<close> is a \<^verbatim>\<open>typeName\<close> with all its identifiers, in order, under
    \<^verbatim>\<open>Identifier\<close>; it has no \<^verbatim>\<open>packageOrTypeName\<close> child;
  \<^item> a member of an \<^verbatim>\<open>implements\<close> or \<^verbatim>\<open>extends\<close> list is an \<^verbatim>\<open>interfaceType\<close> with a
    \<^verbatim>\<open>classType\<close> child that holds the identifiers; it has no \<^verbatim>\<open>typeName\<close> child;
  \<^item> the modifier \<^verbatim>\<open>abstract\<close> is a modifier node with the token under \<^verbatim>\<open>Abstract\<close>;
  \<^item> a class declaration keeps its modifiers under \<^verbatim>\<open>classModifier\<close> and its body under
    \<^verbatim>\<open>normalClassDeclaration\<close>, an interface declaration under \<^verbatim>\<open>interfaceModifier\<close> and
    \<^verbatim>\<open>normalInterfaceDeclaration\<close>.
  A key with no child is absent.
\<close>

definition ident :: "string \<Rightarrow> token" where
  "ident s = \<lparr>tk_image = s\<rparr>"

definition children :: "'a list \<Rightarrow> 'a list option" where
  "children xs = (if xs = [] then None else Some xs)"

definition writtenName :: "string list \<Rightarrow> string \<Rightarrow> typeName" where
  "writtenName qualifier N =
     \<lparr>tn_Identifier = Some (map ident (qualifier @ [N])), tn_packageOrTypeName = None\<rparr>"

definition writtenType :: "string list \<Rightarrow> string \<Rightarrow> interfaceType" where
  "writtenType qualifier N =
     \<lparr>it_typeName = None,
      it_classType = Some [\<lparr>ct_Identifier = Some (map ident (qualifier @ [N]))\<rparr>]\<rparr>"

definition annotationModifier :: "typeName \<Rightarrow> classModifier" where
  "annotationModifier tn =
     \<lparr>cm_annotation = Some [\<lparr>ann_typeName = Some [tn]\<rparr>],
      cm_abstractKeyword = None, cm_Abstract = None\<rparr>"

definition abstractModifier :: classModifier where
  "abstractModifier =
     \<lparr>cm_annotation = None, cm_abstractKeyword = None, cm_Abstract = Some [ident ''abstract'']\<rparr>"

definition typeList :: "interfaceType list \<Rightarrow> interfaceTypeList" where
  "typeList members = \<lparr>itl_interfaceType = Some members\<rparr>"

definition classDeclarationNode ::
    "classModifier list \<Rightarrow> string \<Rightarrow> interfaceType list \<Rightarrow> node" where
  "classDeclarationNode mods name impls =
     \<lparr>classModifier = children mods,
      interfaceModifier = None,
      normalClassDeclaration =
        Some [\<lparr>ncd_typeIdentifier = Some [\<lparr>ti_Identifier = Some [ident name]\<rparr>],
               ncd_classImplements =
                 (if impls = [] then None
                  else Some [\<lparr>ci_interfaceTypeList = Some [typeList impls]\<rparr>])\<rparr>],
      normalInterfaceDeclaration = None\<rparr>"

definition interfaceDeclarationNode ::
    "classModifier list \<Rightarrow> string \<Rightarrow> interfaceType list \<Rightarrow> node" where
  "interfaceDeclarationNode mods name exts =
     \<lparr>classModifier = None,
      interfaceModifier = children mods,
      normalClassDeclaration = None,
      normalInterfaceDeclaration =
        Some [\<lparr>nid_typeIdentifier = Some [\<lparr>ti_Identifier = Some [ident name]\<rparr>],
               nid_interfaceExtends =
                 (if exts = [] then None
                  else Some [\<lparr>ie_interfaceTypeList = Some [typeList exts]\<rparr>])\<rparr>]\<rparr>"

definition classFile :: "node \<Rightarrow> ast" where
  "classFile n =
     \<lparr>ast_ordinaryCompilationUnit =
        Some [\<lparr>ocu_typeDeclaration =
                 Some [\<lparr>classDeclaration = Some [n], interfaceDeclaration = None\<rparr>]\<rparr>]\<rparr>"

definition interfaceFile :: "node \<Rightarrow> ast" where
  "interfaceFile n =
     \<lparr>ast_ordinaryCompilationUnit =
        Some [\<lparr>ocu_typeDeclaration =
                 Some [\<lparr>classDeclaration = None, interfaceDeclaration = Some [n]\<rparr>]\<rparr>]\<rparr>"

text \<open>A parser given by the list of the files it can parse.\<close>

definition parserOf :: "(string \<times> ast) list \<Rightarrow> parser" where
  "parserOf table = map_of table"

subsection \<open>A tree the parser does not build\<close>

text \<open>
  \<open>typeNameChild\<close> is a list member with a \<^verbatim>\<open>typeName\<close> child, the key that
  \<^verbatim>\<open>getImplementedInterfaces\<close> and \<^verbatim>\<open>getExtendedInterfaces\<close> read. No parsed file contains
  such a node. Trees made with it are built by hand; they serve only to run the part of
  the traversal that follows references, which no parsed tree reaches.
\<close>

definition typeNameChild :: "typeName \<Rightarrow> interfaceType" where
  "typeNameChild tn = \<lparr>it_typeName = Some [tn], it_classType = None\<rparr>"

section \<open>Vocabulary of the properties\<close>

text \<open>
  \<open>declaredAbstract\<close> follows the specification's words, not the script: an abstract modifier
  token is present on the declaration, where the parser keeps it (the \<^verbatim>\<open>Abstract\<close> token of
  a modifier of the declaration, class or interface). It is compared with the script's
  \<open>isAbstract\<close> below.
\<close>

definition declaredAbstract :: "node \<Rightarrow> bool" where
  "declaredAbstract node =
     list_ex (\<lambda>modifier. first (cm_Abstract modifier) \<noteq> None)
       ((case classModifier node of None \<Rightarrow> [] | Some mods \<Rightarrow> mods) @
        (case interfaceModifier node of None \<Rightarrow> [] | Some mods \<Rightarrow> mods))"

text \<open>
  The declaration a file contributes, and its simple name: what \<^verbatim>\<open>findClassDeclaration\<close>
  computes for each path before it compares the name.
\<close>

definition declaredNode :: "parser \<Rightarrow> string \<Rightarrow> node option" where
  "declaredNode parse filePath =
     (case parseJavaFile parse filePath of None \<Rightarrow> None | Some a \<Rightarrow> getTypeDeclaration a)"

definition declaredTypeName :: "parser \<Rightarrow> string \<Rightarrow> string option" where
  "declaredTypeName parse filePath =
     (case declaredNode parse filePath of None \<Rightarrow> None | Some n \<Rightarrow> getTypeName n)"

section \<open>Example file sets\<close>

text \<open>
  Small file sets on which the properties below are evaluated. The trees are those of the
  parser, except in \<open>handbuilt_chain_parse\<close> and \<open>cycle_parse\<close>, whose list members are built
  by hand with \<open>typeNameChild\<close>.
\<close>

definition chain_fs :: filesystem where
  "chain_fs = [''/src'' \<mapsto> Dir [(''Base.java'', File), (''Impl.java'', File), (''Mid.java'', File)]]"

definition chain_parse :: parser where
  "chain_parse = parserOf
     [(''/src/Base.java'', interfaceFile (interfaceDeclarationNode [] ''Base'' [])),
      (''/src/Mid.java'',
         interfaceFile (interfaceDeclarationNode [] ''Mid'' [writtenType [] ''Base''])),
      (''/src/Impl.java'', classFile (classDeclarationNode [] ''Impl'' [writtenType [] ''Mid'']))]"

definition handbuilt_chain_parse :: parser where
  "handbuilt_chain_parse = parserOf
     [(''/src/Base.java'', interfaceFile (interfaceDeclarationNode [] ''Base'' [])),
      (''/src/Mid.java'',
         interfaceFile (interfaceDeclarationNode [] ''Mid''
           [typeNameChild (writtenName [] ''Base'')])),
      (''/src/Impl.java'',
         classFile (classDeclarationNode [] ''Impl'' [typeNameChild (writtenName [] ''Mid'')]))]"

definition abstract_fs :: filesystem where
  "abstract_fs = [''/src'' \<mapsto> Dir [(''Abs.java'', File), (''Impl.java'', File)]]"

definition abstract_parse :: parser where
  "abstract_parse = parserOf
     [(''/src/Abs.java'',
         classFile (classDeclarationNode
           [annotationModifier (writtenName [] ''Service''), abstractModifier] ''Abs'' [])),
      (''/src/Impl.java'',
         classFile (classDeclarationNode [annotationModifier (writtenName [] ''Service'')] ''Impl'' []))]"

definition duplicate_fs :: filesystem where
  "duplicate_fs =
     [''/r'' \<mapsto> Dir [(''a'', Dir [(''Foo.java'', File)]), (''a.b'', Dir [(''Foo.java'', File)])]]"

definition duplicate_parse :: parser where
  "duplicate_parse = parserOf
     [(''/r/a/Foo.java'', classFile (classDeclarationNode [] ''Foo'' [writtenType [] ''Left''])),
      (''/r/a.b/Foo.java'', classFile (classDeclarationNode [] ''Foo'' [writtenType [] ''Right'']))]"

definition default_fs :: filesystem where
  "default_fs = [''./src/main/java'' \<mapsto> Dir [(''com'', Dir [(''A.java'', File)])]]"

definition default_parse :: parser where
  "default_parse = parserOf
     [(''src/main/java/com/A.java'',
         classFile (classDeclarationNode [annotationModifier (writtenName [] ''Service'')] ''A'' []))]"

definition cycle_files :: "string list" where
  "cycle_files = [''/src/X.java'', ''/src/Y.java'']"

definition cycle_parse :: parser where
  "cycle_parse = parserOf
     [(''/src/X.java'',
         classFile (classDeclarationNode [] ''X'' [typeNameChild (writtenName [] ''Y'')])),
      (''/src/Y.java'',
         classFile (classDeclarationNode [] ''Y'' [typeNameChild (writtenName [] ''X'')]))]"

section \<open>Properties\<close>

subsection \<open>Extraction on written declarations\<close>

lemma pushTypeName_bare: "N \<noteq> [] \<Longrightarrow> pushTypeName (writtenName [] N) = [N]"
  by (simp add: pushTypeName_def writtenName_def ident_def)


lemma modifierAnnotations_annotationModifier:
  "modifierAnnotations (annotationModifier tn) = pushTypeName tn"
  by (simp add: modifierAnnotations_def annotationModifier_def annotationNames_def)

lemma getAnnotations_class:
  "getAnnotations (classDeclarationNode mods c impls) = concat (map modifierAnnotations mods)"
  by (simp add: getAnnotations_def classDeclarationNode_def children_def)

lemma getAnnotations_interface:
  "getAnnotations (interfaceDeclarationNode mods c exts) = []"
  by (simp add: getAnnotations_def interfaceDeclarationNode_def)

lemma interfaceTypeNames_written:
  "interfaceTypeNames (typeList (map (\<lambda>(q, N). writtenType q N) refs)) = []"
  by (induction refs) (auto simp: interfaceTypeNames_def typeList_def writtenType_def)

lemma interfaceTypeNames_handbuilt:
  "interfaceTypeNames (typeList (map typeNameChild tns)) = concat (map pushTypeName tns)"
  by (simp add: interfaceTypeNames_def typeList_def typeNameChild_def comp_def)

lemma getImplementedInterfaces_written:
  "getImplementedInterfaces (classDeclarationNode mods c (map (\<lambda>(q, N). writtenType q N) refs)) = []"
  by (simp add: getImplementedInterfaces_def classDeclarationNode_def interfaceTypeNames_written)

lemma getExtendedInterfaces_written:
  "getExtendedInterfaces (interfaceDeclarationNode mods c (map (\<lambda>(q, N). writtenType q N) refs)) = []"
  by (simp add: getExtendedInterfaces_def interfaceDeclarationNode_def interfaceTypeNames_written)

lemma getImplementedInterfaces_handbuilt:
  "getImplementedInterfaces (classDeclarationNode mods c (map typeNameChild tns))
     = concat (map pushTypeName tns)"
  by (simp add: getImplementedInterfaces_def classDeclarationNode_def interfaceTypeNames_handbuilt)

lemma getImplementedInterfaces_interface:
  "getImplementedInterfaces (interfaceDeclarationNode mods c exts) = []"
  by (simp add: getImplementedInterfaces_def interfaceDeclarationNode_def)

text \<open>
  Claim C2 at \<^verbatim>\<open>@com.example.Service class Foo implements com.example.Service\<close>: the
  annotation is recorded as \<^verbatim>\<open>com\<close>, the first identifier of its name, and the \<^verbatim>\<open>implements\<close>
  reference is not recorded at all; the same holds for the \<^verbatim>\<open>extends\<close> reference of
  \<^verbatim>\<open>interface Bar extends com.example.Service\<close>. No entry is the dotted path as written. A
  bare \<^verbatim>\<open>@Service\<close> is recorded as itself, a bare \<^verbatim>\<open>implements Service\<close> is not recorded.
\<close>

theorem C2_dotted_reference_not_recorded:
  "getAnnotations (classDeclarationNode
      [annotationModifier (writtenName [''com'', ''example''] ''Service'')] ''Foo''
      [writtenType [''com'', ''example''] ''Service''])
     = [''com''] \<and>
   getImplementedInterfaces (classDeclarationNode
      [annotationModifier (writtenName [''com'', ''example''] ''Service'')] ''Foo''
      [writtenType [''com'', ''example''] ''Service''])
     = [] \<and>
   getExtendedInterfaces (interfaceDeclarationNode [] ''Bar''
      [writtenType [''com'', ''example''] ''Service''])
     = [] \<and>
   getAnnotations (classDeclarationNode
      [annotationModifier (writtenName [] ''Service'')] ''Foo'' [writtenType [] ''Service''])
     = [''Service''] \<and>
   getImplementedInterfaces (classDeclarationNode
      [annotationModifier (writtenName [] ''Service'')] ''Foo'' [writtenType [] ''Service''])
     = []"
  by code_simp

subsection \<open>The annotation matcher and the qualifier of a dotted annotation\<close>

lemma getAnnotations_member:
  "annotationModifier tn \<in> set mods \<Longrightarrow> e \<in> set (pushTypeName tn) \<Longrightarrow>
     e \<in> set (getAnnotations (classDeclarationNode mods c impls))"
  by (auto simp: getAnnotations_class modifierAnnotations_annotationModifier
        intro!: bexI [of _ "annotationModifier tn"])

lemma hasConfiguredAnnotation_iff:
  "hasConfiguredAnnotation this node \<longleftrightarrow>
     (\<exists>ann \<in> set (getAnnotations node).
        ann \<in> (\<lambda>a. last (split_dot a)) ` set (annotations this) \<or> ann \<in> set (annotations this))"
  by (auto simp: hasConfiguredAnnotation_def Let_def list_ex_iff)




subsection \<open>scan, generally\<close>

lemma set_scan_loop:
  "set (scan_loop this parse javaFiles ps) = {p \<in> set ps. scanMatches this parse javaFiles p}"
  by (induction ps) auto

lemma set_files_scan:
  "set (files (scan this fs parse)) =
     {p \<in> set (findJavaFiles fs (scanDir this)).
        scanMatches this parse (findJavaFiles fs (scanDir this)) p}"
  by (simp add: scan_def Let_def set_scan_loop)

lemma scan_sorted_count:
  "sorted (files (scan this fs parse)) \<and> count (scan this fs parse) = length (files (scan this fs parse))"
  by (simp add: scan_def Let_def)

lemma scan_loop_no_match:
  "\<forall>p \<in> set ps. \<not> scanMatches this parse javaFiles p \<Longrightarrow> scan_loop this parse javaFiles ps = []"
  by (induction ps) auto

subsection \<open>No criteria configured\<close>

lemma scanMatches_no_criteria:
  "annotations this = [] \<Longrightarrow> interfaces this = [] \<Longrightarrow> \<not> scanMatches this parse javaFiles p"
  by (simp add: scanMatches_def hasConfiguredAnnotation_def hasConfiguredInterface_def
        split: option.splits)

text \<open>
  Claim C9. With an empty annotations list and an empty interfaces list the scan yields
  count 0 and no files, whatever the file set is.
\<close>

theorem C9_no_criteria_no_matches:
  assumes "annotations this = []" and "interfaces this = []"
  shows "scan this fs parse = \<lparr>count = 0, files = []\<rparr>"
proof -
  have "scan_loop this parse javaFiles ps = []" for javaFiles ps
    using assms by (intro scan_loop_no_match) (simp add: scanMatches_no_criteria)
  then show ?thesis by (simp add: scan_def)
qed

text \<open>
  Claim C9, at a configuration document without \<^verbatim>\<open>annotations\<close> and with empty \<^verbatim>\<open>interfaces\<close>,
  over a scan directory in which three Java files are found.
\<close>

theorem C9_no_criteria_no_matches_witness:
  "annotations (JavaFileScanner \<lparr>cfg_annotations = None, cfg_interfaces = Some [],
       cfg_excludeAbstract = None, cfg_scanDir = Some ''/src''\<rparr>) = [] \<and>
   interfaces (JavaFileScanner \<lparr>cfg_annotations = None, cfg_interfaces = Some [],
       cfg_excludeAbstract = None, cfg_scanDir = Some ''/src''\<rparr>) = [] \<and>
   findJavaFiles chain_fs ''/src'' = [''/src/Base.java'', ''/src/Impl.java'', ''/src/Mid.java''] \<and>
   scan (JavaFileScanner \<lparr>cfg_annotations = None, cfg_interfaces = Some [],
       cfg_excludeAbstract = None, cfg_scanDir = Some ''/src''\<rparr>) chain_fs chain_parse
     = \<lparr>count = 0, files = []\<rparr>"
proof -
  have a: "annotations (JavaFileScanner \<lparr>cfg_annotations = None, cfg_interfaces = Some [],
       cfg_excludeAbstract = None, cfg_scanDir = Some ''/src''\<rparr>) = []"
    by (simp add: JavaFileScanner_def)
  have i: "interfaces (JavaFileScanner \<lparr>cfg_annotations = None, cfg_interfaces = Some [],
       cfg_excludeAbstract = None, cfg_scanDir = Some ''/src''\<rparr>) = []"
    by (simp add: JavaFileScanner_def)
  have f: "findJavaFiles chain_fs ''/src'' = [''/src/Base.java'', ''/src/Impl.java'', ''/src/Mid.java'']"
    by code_simp
  from a i f C9_no_criteria_no_matches [OF a i, of chain_fs chain_parse] show ?thesis
    by simp
qed

subsection \<open>The chain Impl, Mid, Base\<close>

text \<open>
  Claim C1 at the file set \<^verbatim>\<open>interface Base\<close>, \<^verbatim>\<open>interface Mid extends Base\<close>,
  \<^verbatim>\<open>class Impl implements Mid\<close>. On the parsed files the scan lists no file with target
  interfaces \<^verbatim>\<open>["Base"]\<close>, and none with \<^verbatim>\<open>["Mid"]\<close> either, since no reference is extracted
  from a parsed list member. On the hand-built trees, whose list members carry the
  \<^verbatim>\<open>typeName\<close> child the script reads, \<^verbatim>\<open>getExtendedInterfaces\<close> does return \<^verbatim>\<open>Base\<close> for \<^verbatim>\<open>Mid\<close>
  and \<^verbatim>\<open>["Mid"]\<close> lists \<^verbatim>\<open>Impl\<close>'s file, but \<^verbatim>\<open>["Base"]\<close> still lists no file: the traversal
  does not follow the \<^verbatim>\<open>extends\<close> clause of an interface.
\<close>

theorem C1_extends_edge_not_followed:
  "findJavaFiles chain_fs ''/src'' = [''/src/Base.java'', ''/src/Impl.java'', ''/src/Mid.java''] \<and>
   scan \<lparr>annotations = [], interfaces = [''Base''], excludeAbstract = True, scanDir = ''/src''\<rparr>
     chain_fs chain_parse = \<lparr>count = 0, files = []\<rparr> \<and>
   scan \<lparr>annotations = [], interfaces = [''Mid''], excludeAbstract = True, scanDir = ''/src''\<rparr>
     chain_fs chain_parse = \<lparr>count = 0, files = []\<rparr> \<and>
   getExtendedInterfaces
     (interfaceDeclarationNode [] ''Mid'' [typeNameChild (writtenName [] ''Base'')]) = [''Base''] \<and>
   scan \<lparr>annotations = [], interfaces = [''Base''], excludeAbstract = True, scanDir = ''/src''\<rparr>
     chain_fs handbuilt_chain_parse = \<lparr>count = 0, files = []\<rparr> \<and>
   scan \<lparr>annotations = [], interfaces = [''Mid''], excludeAbstract = True, scanDir = ''/src''\<rparr>
     chain_fs handbuilt_chain_parse = \<lparr>count = 1, files = [''/src/Impl.java'']\<rparr>"
  by code_simp

lemma implementsTargetInterface_no_class:
  "getImplementedInterfaces node = [] \<Longrightarrow>
     fst (implementsTargetInterface parse node t javaFiles visited) = False"
  by (simp add: implementsTargetInterface.simps)

subsection \<open>Abstract declarations\<close>

lemma isAbstract_loop_iff:
  "isAbstract_loop mods = list_ex (\<lambda>modifier. first (cm_abstractKeyword modifier) \<noteq> None) mods"
  by (induction mods) auto

lemma isAbstract_iff:
  "isAbstract node =
     list_ex (\<lambda>modifier. first (cm_abstractKeyword modifier) \<noteq> None)
       (case classModifier node of None \<Rightarrow> [] | Some mods \<Rightarrow> mods)"
  by (simp add: isAbstract_def isAbstract_loop_iff split: option.splits)

lemma hasConfiguredInterface_loop_iff:
  "hasConfiguredInterface_loop parse node javaFiles ts =
     (\<exists>t \<in> set ts. fst (implementsTargetInterface parse node t javaFiles {}))"
  by (induction ts) auto

lemma hasConfiguredInterface_iff:
  "hasConfiguredInterface this parse node javaFiles =
     (\<exists>t \<in> set (interfaces this). fst (implementsTargetInterface parse node t javaFiles {}))"
  by (auto simp: hasConfiguredInterface_def hasConfiguredInterface_loop_iff)

lemma hasConfiguredAnnotation_classModifier:
  "hasConfiguredAnnotation this node \<Longrightarrow> classModifier node \<noteq> None"
  by (cases "classModifier node") (auto simp: hasConfiguredAnnotation_iff getAnnotations_def)

lemma hasConfiguredInterface_normalClass:
  "hasConfiguredInterface this parse node javaFiles \<Longrightarrow> normalClassDeclaration node \<noteq> None"
proof (rule ccontr)
  assume h: "hasConfiguredInterface this parse node javaFiles"
    and "\<not> normalClassDeclaration node \<noteq> None"
  then have "getImplementedInterfaces node = []"
    by (simp add: getImplementedInterfaces_def)
  then have "\<not> fst (implementsTargetInterface parse node t javaFiles {})" for t
    by (simp add: implementsTargetInterface_no_class)
  with h show False by (simp add: hasConfiguredInterface_iff)
qed

text \<open>
  What the loop of \<^verbatim>\<open>scan\<close> does with \<open>isAbstract\<close>: with \<^verbatim>\<open>excludeAbstract\<close> set, every listed
  file parses to a declaration for which \<open>isAbstract\<close> is false.
\<close>

lemma scan_excludes_isAbstract:
  assumes "excludeAbstract this" and "p \<in> set (files (scan this fs parse))"
  shows "\<exists>a n. parse p = Some a \<and> getTypeDeclaration a = Some n \<and> \<not> isAbstract n"
proof -
  from assms(2) have m: "scanMatches this parse (findJavaFiles fs (scanDir this)) p"
    by (simp add: set_files_scan)
  then obtain a where a: "parse p = Some a"
    by (auto simp: scanMatches_def parseJavaFile_def split: option.splits)
  with m obtain n where n: "getTypeDeclaration a = Some n"
    by (auto simp: scanMatches_def parseJavaFile_def split: option.splits)
  from m a n assms(1) have "\<not> isAbstract n"
    by (auto simp: scanMatches_def parseJavaFile_def split: if_splits)
  with a n show ?thesis by blast
qed

text \<open>
  \<open>isAbstract\<close> looks for the key \<^verbatim>\<open>abstractKeyword\<close> only, among the \<^verbatim>\<open>classModifier\<close> children
  only: it is false for every declaration none of whose class modifiers has that key.
\<close>

lemma isAbstract_without_abstractKeyword:
  "list_all (\<lambda>modifier. cm_abstractKeyword modifier = None)
     (case classModifier node of None \<Rightarrow> [] | Some mods \<Rightarrow> mods) \<Longrightarrow> \<not> isAbstract node"
  by (auto simp: isAbstract_iff list_all_iff list_ex_iff)

text \<open>
  Claim C3 at a directory with \<^verbatim>\<open>@Service abstract class Abs\<close> and \<^verbatim>\<open>@Service class Impl\<close>,
  the configured annotation \<^verbatim>\<open>Service\<close> and no \<^verbatim>\<open>excludeAbstract\<close> in the configuration
  (so it is true): the declaration of \<^verbatim>\<open>Abs\<close> carries the abstract modifier, \<open>isAbstract\<close>
  is false for it, and the scan lists \<^verbatim>\<open>Abs.java\<close>. \<open>isAbstract\<close> is false as well for
  \<^verbatim>\<open>abstract interface Foo\<close>.
\<close>

theorem C3_abstract_class_listed:
  "declaredAbstract (classDeclarationNode
      [annotationModifier (writtenName [] ''Service''), abstractModifier] ''Abs'' []) \<and>
   isAbstract (classDeclarationNode
      [annotationModifier (writtenName [] ''Service''), abstractModifier] ''Abs'' []) = False \<and>
   excludeAbstract (JavaFileScanner \<lparr>cfg_annotations = Some [''Service''], cfg_interfaces = None,
       cfg_excludeAbstract = None, cfg_scanDir = Some ''/src''\<rparr>) \<and>
   scan (JavaFileScanner \<lparr>cfg_annotations = Some [''Service''], cfg_interfaces = None,
       cfg_excludeAbstract = None, cfg_scanDir = Some ''/src''\<rparr>) abstract_fs abstract_parse
     = \<lparr>count = 2, files = [''/src/Abs.java'', ''/src/Impl.java'']\<rparr> \<and>
   declaredAbstract (interfaceDeclarationNode [abstractModifier] ''Foo'' []) \<and>
   isAbstract (interfaceDeclarationNode [abstractModifier] ''Foo'' []) = False"
  by code_simp

subsection \<open>Lookup by simple name\<close>

lemma findClassDeclaration_Cons:
  "findClassDeclaration parse c (p # ps) =
     (if declaredTypeName parse p = Some c
      then Some \<lparr>decl_node = the (declaredNode parse p), decl_filePath = p\<rparr>
      else findClassDeclaration parse c ps)"
  by (simp add: declaredTypeName_def declaredNode_def split: option.splits)

text \<open>
  Claim C5, as the script has it. When some discovered file declares the name \<open>c\<close>,
  \<^verbatim>\<open>findClassDeclaration\<close> returns the declaration of the first such file in the order of
  the list \<^verbatim>\<open>javaFiles\<close> (the order in which \<^verbatim>\<open>findJavaFiles\<close> discovered them): no file
  before it in the list declares \<open>c\<close>.
\<close>

theorem C5_first_in_discovery_order:
  assumes "p \<in> set javaFiles" and "declaredTypeName parse p = Some c"
  shows "\<exists>d before after.
           findClassDeclaration parse c javaFiles = Some d \<and>
           javaFiles = before @ decl_filePath d # after \<and>
           list_all (\<lambda>q. declaredTypeName parse q \<noteq> Some c) before \<and>
           declaredTypeName parse (decl_filePath d) = Some c \<and>
           declaredNode parse (decl_filePath d) = Some (decl_node d)"
  using assms
proof (induction javaFiles)
  case Nil
  then show ?case by simp
next
  case (Cons f fs)
  show ?case
  proof (cases "declaredTypeName parse f = Some c")
    case True
    then obtain n where n: "declaredNode parse f = Some n"
      by (auto simp: declaredTypeName_def split: option.splits)
    let ?d = "\<lparr>decl_node = n, decl_filePath = f\<rparr>"
    have "findClassDeclaration parse c (f # fs) = Some ?d"
      using True n by (simp add: findClassDeclaration_Cons del: findClassDeclaration.simps)
    moreover have "f # fs = [] @ decl_filePath ?d # fs" by simp
    moreover have "list_all (\<lambda>q. declaredTypeName parse q \<noteq> Some c) []" by simp
    ultimately show ?thesis using True n
      by (metis decl.select_convs(1) decl.select_convs(2))
  next
    case False
    with Cons.prems have "p \<in> set fs" by auto
    from Cons.IH [OF this Cons.prems(2)] obtain d before after where
      d: "findClassDeclaration parse c fs = Some d" "fs = before @ decl_filePath d # after"
         "list_all (\<lambda>q. declaredTypeName parse q \<noteq> Some c) before"
         "declaredTypeName parse (decl_filePath d) = Some c"
         "declaredNode parse (decl_filePath d) = Some (decl_node d)"
      by blast
    have "findClassDeclaration parse c (f # fs) = Some d"
      using False d(1) by (simp add: findClassDeclaration_Cons del: findClassDeclaration.simps)
    moreover have "f # fs = (f # before) @ decl_filePath d # after"
      using d(2) by simp
    moreover have "list_all (\<lambda>q. declaredTypeName parse q \<noteq> Some c) (f # before)"
      using False d(3) by simp
    ultimately show ?thesis using d(4,5) by blast
  qed
qed

text \<open>Claim C5, at two files that both declare \<^verbatim>\<open>Foo\<close>.\<close>

theorem C5_first_in_discovery_order_witness:
  "''/r/a.b/Foo.java'' \<in> set (findJavaFiles duplicate_fs ''/r'') \<and>
   declaredTypeName duplicate_parse ''/r/a.b/Foo.java'' = Some ''Foo'' \<and>
   (\<exists>d before after.
      findClassDeclaration duplicate_parse ''Foo'' (findJavaFiles duplicate_fs ''/r'') = Some d \<and>
      findJavaFiles duplicate_fs ''/r'' = before @ decl_filePath d # after \<and>
      list_all (\<lambda>q. declaredTypeName duplicate_parse q \<noteq> Some ''Foo'') before \<and>
      declaredTypeName duplicate_parse (decl_filePath d) = Some ''Foo'' \<and>
      declaredNode duplicate_parse (decl_filePath d) = Some (decl_node d))"
proof -
  have m: "''/r/a.b/Foo.java'' \<in> set (findJavaFiles duplicate_fs ''/r'')"
    by code_simp
  have n: "declaredTypeName duplicate_parse ''/r/a.b/Foo.java'' = Some ''Foo''"
    by code_simp
  from C5_first_in_discovery_order [OF m n] m n show ?thesis
    by blast
qed

text \<open>
  Claim C5 as stated fails: the directories \<^verbatim>\<open>a\<close> and \<^verbatim>\<open>a.b\<close> are walked in this order,
  both hold a \<^verbatim>\<open>Foo.java\<close> declaring \<^verbatim>\<open>Foo\<close>, the path under \<^verbatim>\<open>a.b\<close> is the smaller one, and
  the lookup of \<^verbatim>\<open>Foo\<close> returns the file under \<^verbatim>\<open>a\<close>.
\<close>

theorem C5_lexicographic_counterexample:
  "findJavaFiles duplicate_fs ''/r'' = [''/r/a/Foo.java'', ''/r/a.b/Foo.java''] \<and>
   declaredTypeName duplicate_parse ''/r/a/Foo.java'' = Some ''Foo'' \<and>
   declaredTypeName duplicate_parse ''/r/a.b/Foo.java'' = Some ''Foo'' \<and>
   ''/r/a.b/Foo.java'' < ''/r/a/Foo.java'' \<and>
   map_option decl_filePath
     (findClassDeclaration duplicate_parse ''Foo'' (findJavaFiles duplicate_fs ''/r''))
     = Some ''/r/a/Foo.java''"
  by code_simp

subsection \<open>Monotonicity in the criteria\<close>

lemma scanMatches_mono:
  assumes "set (annotations this) \<subseteq> set (annotations this')"
    and "set (interfaces this) \<subseteq> set (interfaces this')"
    and "excludeAbstract this' = excludeAbstract this"
    and "scanMatches this parse javaFiles p"
  shows "scanMatches this' parse javaFiles p"
proof -
  have a: "hasConfiguredAnnotation this n \<Longrightarrow> hasConfiguredAnnotation this' n" for n
    using assms(1) unfolding hasConfiguredAnnotation_iff by blast
  have i: "hasConfiguredInterface this parse n javaFiles \<Longrightarrow>
           hasConfiguredInterface this' parse n javaFiles" for n
    using assms(2) unfolding hasConfiguredInterface_iff by blast
  from assms(3,4) a i show ?thesis
    by (auto simp: scanMatches_def Let_def split: option.splits if_splits)
qed

lemma scan_mono:
  assumes "set (annotations this) \<subseteq> set (annotations this')"
    and "set (interfaces this) \<subseteq> set (interfaces this')"
    and "excludeAbstract this' = excludeAbstract this"
    and "scanDir this' = scanDir this"
  shows "set (files (scan this fs parse)) \<subseteq> set (files (scan this' fs parse))"
  using assms scanMatches_mono [OF assms(1-3)]
  by (auto simp: set_files_scan)

text \<open>
  Claim C7. For a fixed file set, parser, \<^verbatim>\<open>excludeAbstract\<close> and scan directory, every file
  listed by a scan is still listed after one more entry is added, at the end or at the
  front, to the annotations list or to the interfaces list.
\<close>

theorem C7_adding_a_criterion_keeps_matches:
  "set (files (scan this fs parse))
     \<subseteq> set (files (scan (this\<lparr>annotations := annotations this @ [a]\<rparr>) fs parse)) \<and>
   set (files (scan this fs parse))
     \<subseteq> set (files (scan (this\<lparr>interfaces := interfaces this @ [i]\<rparr>) fs parse)) \<and>
   set (files (scan this fs parse))
     \<subseteq> set (files (scan (this\<lparr>annotations := a # annotations this\<rparr>) fs parse)) \<and>
   set (files (scan this fs parse))
     \<subseteq> set (files (scan (this\<lparr>interfaces := i # interfaces this\<rparr>) fs parse))"
  by (intro conjI scan_mono) auto

text \<open>
  Claim C7, at the interfaces list \<^verbatim>\<open>["Mid"]\<close> extended by \<^verbatim>\<open>"Base"\<close> over the hand-built
  chain, and at the empty annotations list extended by \<^verbatim>\<open>"Service"\<close> over the parsed files
  \<^verbatim>\<open>Abs.java\<close> and \<^verbatim>\<open>Impl.java\<close>.
\<close>

theorem C7_adding_a_criterion_keeps_matches_witness:
  "files (scan \<lparr>annotations = [], interfaces = [''Mid''], excludeAbstract = True,
                scanDir = ''/src''\<rparr> chain_fs handbuilt_chain_parse) = [''/src/Impl.java''] \<and>
   files (scan \<lparr>annotations = [], interfaces = [''Mid'', ''Base''], excludeAbstract = True,
                scanDir = ''/src''\<rparr> chain_fs handbuilt_chain_parse) = [''/src/Impl.java''] \<and>
   set (files (scan \<lparr>annotations = [], interfaces = [''Mid''], excludeAbstract = True,
                scanDir = ''/src''\<rparr> chain_fs handbuilt_chain_parse))
     \<subseteq> set (files (scan \<lparr>annotations = [], interfaces = [''Mid'', ''Base''],
                excludeAbstract = True, scanDir = ''/src''\<rparr> chain_fs handbuilt_chain_parse)) \<and>
   files (scan \<lparr>annotations = [], interfaces = [], excludeAbstract = True,
                scanDir = ''/src''\<rparr> abstract_fs abstract_parse) = [] \<and>
   files (scan \<lparr>annotations = [''Service''], interfaces = [], excludeAbstract = True,
                scanDir = ''/src''\<rparr> abstract_fs abstract_parse)
     = [''/src/Abs.java'', ''/src/Impl.java''] \<and>
   set (files (scan \<lparr>annotations = [], interfaces = [], excludeAbstract = True,
                scanDir = ''/src''\<rparr> abstract_fs abstract_parse))
     \<subseteq> set (files (scan \<lparr>annotations = [''Service''], interfaces = [],
                excludeAbstract = True, scanDir = ''/src''\<rparr> abstract_fs abstract_parse))"
proof -
  have 1: "files (scan \<lparr>annotations = [], interfaces = [''Mid''], excludeAbstract = True,
                scanDir = ''/src''\<rparr> chain_fs handbuilt_chain_parse) = [''/src/Impl.java'']"
    by code_simp
  have 2: "files (scan \<lparr>annotations = [], interfaces = [''Mid'', ''Base''], excludeAbstract = True,
                scanDir = ''/src''\<rparr> chain_fs handbuilt_chain_parse) = [''/src/Impl.java'']"
    by code_simp
  have 3: "files (scan \<lparr>annotations = [], interfaces = [], excludeAbstract = True,
                scanDir = ''/src''\<rparr> abstract_fs abstract_parse) = []"
    by code_simp
  have 4: "files (scan \<lparr>annotations = [''Service''], interfaces = [], excludeAbstract = True,
                scanDir = ''/src''\<rparr> abstract_fs abstract_parse)
             = [''/src/Abs.java'', ''/src/Impl.java'']"
    by code_simp
  from C7_adding_a_criterion_keeps_matches
    [of "\<lparr>annotations = [], interfaces = [''Mid''], excludeAbstract = True, scanDir = ''/src''\<rparr>"
        chain_fs handbuilt_chain_parse "''x''" "''Base''"]
  have 5: "set (files (scan \<lparr>annotations = [], interfaces = [''Mid''], excludeAbstract = True,
                scanDir = ''/src''\<rparr> chain_fs handbuilt_chain_parse))
     \<subseteq> set (files (scan \<lparr>annotations = [], interfaces = [''Mid'', ''Base''],
                excludeAbstract = True, scanDir = ''/src''\<rparr> chain_fs handbuilt_chain_parse))"
    by simp
  from C7_adding_a_criterion_keeps_matches
    [of "\<lparr>annotations = [], interfaces = [], excludeAbstract = True, scanDir = ''/src''\<rparr>"
        abstract_fs abstract_parse "''Service''" "''x''"]
  have 6: "set (files (scan \<lparr>annotations = [], interfaces = [], excludeAbstract = True,
                scanDir = ''/src''\<rparr> abstract_fs abstract_parse))
     \<subseteq> set (files (scan \<lparr>annotations = [''Service''], interfaces = [],
                excludeAbstract = True, scanDir = ''/src''\<rparr> abstract_fs abstract_parse))"
    by simp
  from 1 2 3 4 5 6 show ?thesis by blast
qed

subsection \<open>The listed paths\<close>

text \<open>
  The listed paths are sorted and counted (\<open>scan_sorted_count\<close>). They are built from the
  scan directory with \<^verbatim>\<open>path.join\<close>, so they are absolute when the scan directory is given
  as an absolute path; nothing resolves a relative one.
\<close>

lemma isAbsolute_normalize: "isAbsolute p \<Longrightarrow> isAbsolute (normalize p)"
  by (cases p) (auto simp: isAbsolute_def normalize_def Let_def)

lemma isAbsolute_path_join: "isAbsolute a \<Longrightarrow> isAbsolute (path_join a b)"
proof -
  assume a: "isAbsolute a"
  then have "a \<noteq> []" by (auto simp: isAbsolute_def)
  moreover from a have "isAbsolute (a @ ''/'' @ b)"
    by (cases a) (auto simp: isAbsolute_def)
  ultimately show ?thesis
    using a by (auto simp: path_join_def Let_def intro: isAbsolute_normalize)
qed

lemma walkDir_absolute:
  "isAbsolute currentPath \<Longrightarrow> p \<in> set (walkDir currentPath entries) \<Longrightarrow> isAbsolute p"
  by (induction currentPath entries rule: walkDir.induct)
     (auto simp: isAbsolute_path_join split: if_splits)

lemma findJavaFiles_absolute:
  "isAbsolute dir \<Longrightarrow> p \<in> set (findJavaFiles fs dir) \<Longrightarrow> isAbsolute p"
proof (cases "fs dir")
  case None
  assume "p \<in> set (findJavaFiles fs dir)"
  with None show ?thesis by (simp add: findJavaFiles_def)
next
  case (Some n)
  assume a: "isAbsolute dir" and p: "p \<in> set (findJavaFiles fs dir)"
  with Some show ?thesis
    by (cases n) (auto simp: findJavaFiles_def walkDir_absolute split: if_splits)
qed

lemma scan_absolute:
  "isAbsolute (scanDir this) \<Longrightarrow> p \<in> set (files (scan this fs parse)) \<Longrightarrow> isAbsolute p"
  by (auto simp: set_files_scan findJavaFiles_absolute)

text \<open>
  Claim C8 at a configuration without \<^verbatim>\<open>scanDir\<close>: the scan directory is the default
  \<^verbatim>\<open>./src/main/java\<close>, and the file listed for \<^verbatim>\<open>@Service class A\<close> in its subdirectory
  \<^verbatim>\<open>com\<close> is the relative path \<^verbatim>\<open>src/main/java/com/A.java\<close>, not an absolute path.
\<close>

theorem C8_relative_paths_listed:
  "scanDir (JavaFileScanner \<lparr>cfg_annotations = Some [''Service''], cfg_interfaces = None,
       cfg_excludeAbstract = None, cfg_scanDir = None\<rparr>) = ''./src/main/java'' \<and>
   scan (JavaFileScanner \<lparr>cfg_annotations = Some [''Service''], cfg_interfaces = None,
       cfg_excludeAbstract = None, cfg_scanDir = None\<rparr>) default_fs default_parse
     = \<lparr>count = 1, files = [''src/main/java/com/A.java'']\<rparr> \<and>
   \<not> isAbsolute ''src/main/java/com/A.java''"
  by code_simp

subsection \<open>Annotations on classes and on interfaces\<close>

text \<open>
  Claim C4 at \<^verbatim>\<open>@Service interface Foo\<close> with the configured annotation \<^verbatim>\<open>Service\<close>:
  \<^verbatim>\<open>hasConfiguredAnnotation\<close> is false for the interface and true for the class declared
  with the same annotation.
\<close>

theorem C4_interface_annotation_not_matched:
  "hasConfiguredAnnotation
     \<lparr>annotations = [''Service''], interfaces = [], excludeAbstract = True, scanDir = ''/src''\<rparr>
     (interfaceDeclarationNode [annotationModifier (writtenName [] ''Service'')] ''Foo'' [])
     = False \<and>
   hasConfiguredAnnotation
     \<lparr>annotations = [''Service''], interfaces = [], excludeAbstract = True, scanDir = ''/src''\<rparr>
     (classDeclarationNode [annotationModifier (writtenName [] ''Service'')] ''Foo'' [])
     = True"
  by code_simp

lemma split_on_not_Nil: "split_on c s \<noteq> []"
  by (induction s) (auto split: list.splits)

lemma split_on_no_separator: "c \<notin> set s \<Longrightarrow> split_on c s = [s]"
  by (induction s) auto

lemma last_split_on_append: "last (split_on c (p @ c # s)) = last (split_on c s)"
proof (induction p)
  case Nil
  then show ?case by (simp add: split_on_not_Nil)
next
  case (Cons x p)
  obtain part parts where r: "split_on c (p @ c # s) = part # parts" and "parts \<noteq> []"
  proof (induction p arbitrary: thesis)
    case Nil
    then show ?case by (simp add: split_on_not_Nil)
  next
    case (Cons y p)
    from Cons.IH obtain part parts where
      "split_on c (p @ c # s) = part # parts" "parts \<noteq> []" by blast
    with Cons.prems show ?case by (cases "y = c") auto
  qed
  with Cons show ?case by (cases "x = c") auto
qed

text \<open>
  For a class declaration with an annotation written as a bare identifier, the matcher does
  what it is meant to do: the annotation matches a configured name with the same trailing
  component, and a configured name equal to it.
\<close>

lemma class_bare_annotation_matches:
  assumes "annotationModifier (writtenName [] N) \<in> set mods" and "N \<noteq> []"
    and "a \<in> set (annotations this)"
    and "last (split_dot a) = N \<or> a = N"
  shows "hasConfiguredAnnotation this (classDeclarationNode mods c impls)"
proof -
  have "N \<in> set (getAnnotations (classDeclarationNode mods c impls))"
    using assms(1,2) by (intro getAnnotations_member [of "writtenName [] N"]) (simp_all add: pushTypeName_bare)
  moreover from assms(3,4) have
    "N \<in> (\<lambda>a. last (split_dot a)) ` set (annotations this) \<or> N \<in> set (annotations this)"
    by blast
  ultimately show ?thesis
    unfolding hasConfiguredAnnotation_iff by blast
qed

subsection \<open>Traversal of cyclic references\<close>

lemma visited_grows:
  "visited \<subseteq> snd (implementsTargetInterface parse node t fs visited)"
  "visited \<subseteq> snd (implementsTarget_loop parse names t fs visited)"
proof (induction parse node t fs visited and parse names t fs visited
       rule: implementsTargetInterface_implementsTarget_loop.induct)
  case (1 parse node targetInterface javaFiles visited)
  then show ?case
    by (auto simp: implementsTargetInterface.simps)
next
  case (2 parse targetInterface javaFiles visited)
  then show ?case by simp
next
  case (3 parse ifaceName rest targetInterface javaFiles visited)
  show ?case
  proof (cases "findClassDeclaration parse ifaceName javaFiles")
    case None
    with 3(1) show ?thesis by simp
  next
    case (Some d)
    obtain b v' where r:
      "implementsTargetInterface parse (decl_node d) targetInterface javaFiles visited = (b, v')"
      by (cases "implementsTargetInterface parse (decl_node d) targetInterface javaFiles visited")
    from 3(2) [OF Some] r have sub: "visited \<subseteq> v'" by simp
    show ?thesis
    proof (cases b)
      case True
      with Some r sub show ?thesis by simp
    next
      case False
      from 3(3) [OF Some r [symmetric]] False
      have "v' \<subseteq> snd (implementsTarget_loop parse rest targetInterface javaFiles v')"
        by simp
      with Some r sub False show ?thesis by auto
    qed
  qed
qed

lemma visited_bounded:
  "snd (implementsTargetInterface parse node t fs visited)
     \<subseteq> visited \<union> insert (nodeKey node) (declaredNames parse fs)"
  "snd (implementsTarget_loop parse names t fs visited) \<subseteq> visited \<union> declaredNames parse fs"
proof (induction parse node t fs visited and parse names t fs visited
       rule: implementsTargetInterface_implementsTarget_loop.induct)
  case (1 parse node targetInterface javaFiles visited)
  then show ?case
    by (auto simp: implementsTargetInterface.simps)
next
  case (2 parse targetInterface javaFiles visited)
  then show ?case by simp
next
  case (3 parse ifaceName rest targetInterface javaFiles visited)
  show ?case
  proof (cases "findClassDeclaration parse ifaceName javaFiles")
    case None
    with 3(1) show ?thesis by simp
  next
    case (Some d)
    obtain b v' where r:
      "implementsTargetInterface parse (decl_node d) targetInterface javaFiles visited = (b, v')"
      by (cases "implementsTargetInterface parse (decl_node d) targetInterface javaFiles visited")
    have key: "nodeKey (decl_node d) \<in> declaredNames parse javaFiles"
      using Some by (simp add: findClassDeclaration_nodeKey findClassDeclaration_declared)
    from 3(2) [OF Some] r key have sub: "v' \<subseteq> visited \<union> declaredNames parse javaFiles"
      by auto
    show ?thesis
    proof (cases b)
      case True
      with Some r sub show ?thesis by simp
    next
      case False
      from 3(3) [OF Some r [symmetric]] False
      have "snd (implementsTarget_loop parse rest targetInterface javaFiles v')
              \<subseteq> v' \<union> declaredNames parse javaFiles"
        by simp
      with Some r sub False show ?thesis by auto
    qed
  qed
qed

lemma no_target_in_closed_set:
  fixes R :: "node set"
  assumes closed: "\<forall>n \<in> R. \<forall>c \<in> set (getImplementedInterfaces n). \<forall>d.
                     findClassDeclaration parse c fs = Some d \<longrightarrow> decl_node d \<in> R"
    and absent: "\<forall>n \<in> R. t \<notin> set (getImplementedInterfaces n)"
  shows "node \<in> R \<longrightarrow> \<not> fst (implementsTargetInterface parse node t fs visited)"
    and "(\<forall>c \<in> set names. \<forall>d. findClassDeclaration parse c fs = Some d \<longrightarrow> decl_node d \<in> R)
           \<longrightarrow> \<not> fst (implementsTarget_loop parse names t fs visited)"
  using closed absent
proof (induction parse node t fs visited and parse names t fs visited
       rule: implementsTargetInterface_implementsTarget_loop.induct)
  case (1 parse node targetInterface javaFiles visited)
  show ?case
  proof
    assume inR: "node \<in> R"
    show "\<not> fst (implementsTargetInterface parse node targetInterface javaFiles visited)"
    proof (cases "nodeKey node \<in> visited")
      case True
      then show ?thesis by (simp add: implementsTargetInterface.simps)
    next
      case False
      have nt: "targetInterface \<notin> set (getImplementedInterfaces node)"
        using inR 1(3) by blast
      have "\<not> fst (implementsTarget_loop parse (getImplementedInterfaces node) targetInterface
                      javaFiles (insert (nodeKey node) visited))"
        using 1(1) [OF False nt 1(2) 1(3)] inR 1(2) by blast
      with False nt show ?thesis by (simp add: implementsTargetInterface.simps)
    qed
  qed
next
  case (2 parse targetInterface javaFiles visited)
  then show ?case by simp
next
  case (3 parse ifaceName rest targetInterface javaFiles visited)
  show ?case
  proof
    assume names: "\<forall>c \<in> set (ifaceName # rest). \<forall>d.
                     findClassDeclaration parse c javaFiles = Some d \<longrightarrow> decl_node d \<in> R"
    then have rest: "\<forall>c \<in> set rest. \<forall>d.
                     findClassDeclaration parse c javaFiles = Some d \<longrightarrow> decl_node d \<in> R"
      by simp
    show "\<not> fst (implementsTarget_loop parse (ifaceName # rest) targetInterface javaFiles visited)"
    proof (cases "findClassDeclaration parse ifaceName javaFiles")
      case None
      have "\<not> fst (implementsTarget_loop parse rest targetInterface javaFiles visited)"
        using 3(1) [OF None 3(4) 3(5)] rest by blast
      with None show ?thesis by simp
    next
      case (Some d)
      obtain b v' where r:
        "implementsTargetInterface parse (decl_node d) targetInterface javaFiles visited = (b, v')"
        by (cases "implementsTargetInterface parse (decl_node d) targetInterface javaFiles visited")
      have "decl_node d \<in> R" using names Some by simp
      with 3(2) [OF Some 3(4) 3(5)] r have b: "\<not> b" by simp
      then have bF: "b = False" by simp
      have "\<not> fst (implementsTarget_loop parse rest targetInterface javaFiles v')"
        using 3(3) [OF Some r [symmetric] bF 3(4) 3(5)] rest by blast
      with Some r b show ?thesis by simp
    qed
  qed
qed

text \<open>
  Claim C6. \<open>implementsTargetInterface\<close> is a total function: its recursion was accepted
  with the termination proof above, for every file set and so for every reference graph.
  Its set \<^verbatim>\<open>visited\<close> only grows and stays within the visited names it was given, the key
  of the start node and the finitely many names the file set declares. When \<open>X\<close> refers
  only to \<open>Y\<close> and \<open>Y\<close> only to \<open>X\<close>, through \<^verbatim>\<open>implements\<close> or \<^verbatim>\<open>extends\<close>, the result is false
  for every target other than \<open>X\<close> and \<open>Y\<close>, from either start.
\<close>

theorem C6_cycle_terminates_with_false:
  assumes "findClassDeclaration parse X fs = Some dx"
    and "findClassDeclaration parse Y fs = Some dy"
    and "set (getImplementedInterfaces (decl_node dx)) \<union> set (getExtendedInterfaces (decl_node dx)) = {Y}"
    and "set (getImplementedInterfaces (decl_node dy)) \<union> set (getExtendedInterfaces (decl_node dy)) = {X}"
    and "target \<noteq> X" and "target \<noteq> Y"
  shows "fst (implementsTargetInterface parse (decl_node dx) target fs {}) = False \<and>
         fst (implementsTargetInterface parse (decl_node dy) target fs {}) = False \<and>
         visited \<subseteq> snd (implementsTargetInterface parse node t fs visited) \<and>
         snd (implementsTargetInterface parse node t fs visited)
           \<subseteq> visited \<union> insert (nodeKey node) (declaredNames parse fs) \<and>
         finite (declaredNames parse fs)"
proof -
  let ?R = "{decl_node dx, decl_node dy}"
  have ix: "set (getImplementedInterfaces (decl_node dx)) \<subseteq> {Y}"
    and iy: "set (getImplementedInterfaces (decl_node dy)) \<subseteq> {X}"
    using assms(3,4) by auto
  have closed: "\<forall>n \<in> ?R. \<forall>c \<in> set (getImplementedInterfaces n). \<forall>d.
                  findClassDeclaration parse c fs = Some d \<longrightarrow> decl_node d \<in> ?R"
    using ix iy assms(1,2) by auto
  have absent: "\<forall>n \<in> ?R. target \<notin> set (getImplementedInterfaces n)"
    using ix iy assms(5,6) by auto
  have "\<not> fst (implementsTargetInterface parse (decl_node dx) target fs {})"
    using no_target_in_closed_set(1) [OF closed absent, of "decl_node dx" "{}"] by simp
  moreover have "\<not> fst (implementsTargetInterface parse (decl_node dy) target fs {})"
    using no_target_in_closed_set(1) [OF closed absent, of "decl_node dy" "{}"] by simp
  ultimately show ?thesis
    using visited_grows(1) visited_bounded(1) finite_declaredNames by simp
qed

text \<open>
  Claim C6, at hand-built trees of \<^verbatim>\<open>class X implements Y\<close> and \<^verbatim>\<open>class Y implements X\<close>,
  whose list members carry the \<^verbatim>\<open>typeName\<close> child the script reads, with the target \<^verbatim>\<open>Z\<close>:
  the traversal visits \<^verbatim>\<open>X\<close> and \<^verbatim>\<open>Y\<close> once each and returns false.
\<close>

theorem C6_cycle_terminates_with_false_witness:
  "findClassDeclaration cycle_parse ''X'' cycle_files
     = Some \<lparr>decl_node = classDeclarationNode [] ''X'' [typeNameChild (writtenName [] ''Y'')],
             decl_filePath = ''/src/X.java''\<rparr> \<and>
   findClassDeclaration cycle_parse ''Y'' cycle_files
     = Some \<lparr>decl_node = classDeclarationNode [] ''Y'' [typeNameChild (writtenName [] ''X'')],
             decl_filePath = ''/src/Y.java''\<rparr> \<and>
   getImplementedInterfaces (classDeclarationNode [] ''X'' [typeNameChild (writtenName [] ''Y'')]) = [''Y''] \<and>
   getImplementedInterfaces (classDeclarationNode [] ''Y'' [typeNameChild (writtenName [] ''X'')]) = [''X''] \<and>
   ''Z'' \<noteq> ''X'' \<and> ''Z'' \<noteq> ''Y'' \<and>
   fst (implementsTargetInterface cycle_parse
          (classDeclarationNode [] ''X'' [typeNameChild (writtenName [] ''Y'')]) ''Z'' cycle_files {}) = False \<and>
   snd (implementsTargetInterface cycle_parse
          (classDeclarationNode [] ''X'' [typeNameChild (writtenName [] ''Y'')]) ''Z'' cycle_files {})
     = {''X'', ''Y''}"
proof -
  let ?x = "classDeclarationNode [] ''X'' [typeNameChild (writtenName [] ''Y'')]"
  let ?y = "classDeclarationNode [] ''Y'' [typeNameChild (writtenName [] ''X'')]"
  let ?dx = "\<lparr>decl_node = ?x, decl_filePath = ''/src/X.java''\<rparr>"
  let ?dy = "\<lparr>decl_node = ?y, decl_filePath = ''/src/Y.java''\<rparr>"
  have fx: "findClassDeclaration cycle_parse ''X'' cycle_files = Some ?dx"
    by code_simp
  have fy: "findClassDeclaration cycle_parse ''Y'' cycle_files = Some ?dy"
    by code_simp
  have ix: "getImplementedInterfaces ?x = [''Y'']" and ex: "getExtendedInterfaces ?x = []"
    by code_simp+
  have iy: "getImplementedInterfaces ?y = [''X'']" and ey: "getExtendedInterfaces ?y = []"
    by code_simp+
  have sx: "set (getImplementedInterfaces (decl_node ?dx)) \<union>
            set (getExtendedInterfaces (decl_node ?dx)) = {''Y''}"
    by (simp add: ix ex)
  have sy: "set (getImplementedInterfaces (decl_node ?dy)) \<union>
            set (getExtendedInterfaces (decl_node ?dy)) = {''X''}"
    by (simp add: iy ey)
  have zx: "''Z'' \<noteq> ''X''" and zy: "''Z'' \<noteq> ''Y''"
    by simp_all
  have v: "snd (implementsTargetInterface cycle_parse ?x ''Z'' cycle_files {}) = {''X'', ''Y''}"
    by code_simp
  from C6_cycle_terminates_with_false [OF fx fy sx sy zx zy]
  have "fst (implementsTargetInterface cycle_parse ?x ''Z'' cycle_files {}) = False"
    by simp
  with fx fy ix iy zx zy v show ?thesis
    by blast
qed

end
